theory Spec2Isabelle
  imports Complex_Main
begin

section \<open>The runtime's Date, as the status line uses it\<close>

text \<open>
  A JavaScript \<open>Date\<close> holds a time value: the milliseconds since the epoch, or NaN for an
  invalid date. Here a time value is an \<open>int\<close>, and a Date is an \<open>int option\<close> with
  \<open>None\<close> for the invalid date. The local time zone is a parameter \<open>z\<close> of every
  function that reads or sets a local field: the offset from UTC in milliseconds, as a function
  of the instant and as a function of the local time. \<open>Date.parse\<close> accepts formats that depend on the
  runtime, so the functions that parse a string take it as the parameter \<open>parse\<close>;
  \<open>iso_parse\<close> below is the part of it every runtime agrees on, the format written by
  \<open>toISOString\<close>.
\<close>

definition msPerMinute :: int where "msPerMinute = 60000"
definition msPerHour :: int where "msPerHour = 3600000"
definition msPerDay :: int where "msPerDay = 86400000"

definition Day :: "int \<Rightarrow> int" where
  "Day t = t div msPerDay"

definition HourFromTime :: "int \<Rightarrow> int" where
  "HourFromTime t = (t div msPerHour) mod 24"

definition MinFromTime :: "int \<Rightarrow> int" where
  "MinFromTime t = (t div msPerMinute) mod 60"

definition SecFromTime :: "int \<Rightarrow> int" where
  "SecFromTime t = (t div 1000) mod 60"

definition msFromTime :: "int \<Rightarrow> int" where
  "msFromTime t = t mod 1000"

definition MakeTime :: "int \<Rightarrow> int \<Rightarrow> int \<Rightarrow> int \<Rightarrow> int" where
  "MakeTime h m s milli = h * msPerHour + m * msPerMinute + s * 1000 + milli"

definition MakeDate :: "int \<Rightarrow> int \<Rightarrow> int" where
  "MakeDate day time = day * msPerDay + time"

definition TimeClip :: "int \<Rightarrow> int option" where
  "TimeClip t = (if \<bar>t\<bar> > 8640000000000000 then None else Some t)"

text \<open>
  A time zone gives the offset of local time from UTC in force at an instant
  (\<open>utc_offset\<close>, the runtime's \<open>LocalTZA(t, true)\<close>) and the offset by which a local time
  is read (\<open>local_offset\<close>, the runtime's \<open>LocalTZA(t, false)\<close>): a local time that a
  daylight-saving change skips or repeats is read with the offset from before the change.
\<close>

record zone =
  utc_offset :: "int \<Rightarrow> int"
  local_offset :: "int \<Rightarrow> int"

definition LocalTime :: "zone \<Rightarrow> int \<Rightarrow> int" where
  "LocalTime z t = t + utc_offset z t"

definition UTC :: "zone \<Rightarrow> int \<Rightarrow> int" where
  "UTC z t = t - local_offset z t"

text \<open>A zone with one offset at all times, such as UTC itself.\<close>

definition fixed_zone :: "int \<Rightarrow> zone" where
  "fixed_zone off = \<lparr>utc_offset = (\<lambda>t. off), local_offset = (\<lambda>t. off)\<rparr>"

text \<open>Europe/Paris in the year 2025: one hour ahead of UTC, two hours ahead from 30 March
  01:00 UTC until 26 October 01:00 UTC. The local times from 02:00 to 03:00 of 30 March do not
  occur and are read as winter time; those of 26 October occur twice and are read as summer
  time.\<close>

definition europe_paris :: zone where
  "europe_paris =
     \<lparr>utc_offset = (\<lambda>t. if 1743296400000 \<le> t \<and> t < 1761440400000 then 7200000 else 3600000),
      local_offset = (\<lambda>l. if 1743296400000 + 7200000 \<le> l \<and> l < 1761440400000 + 7200000
                          then 7200000 else 3600000)\<rparr>"

text \<open>The proleptic Gregorian calendar: day number since the epoch to (year, month 1..12, day of
  month), and back.\<close>

definition civil_from_days :: "int \<Rightarrow> int \<times> int \<times> int" where
  "civil_from_days z0 =
     (let z = z0 + 719468;
          era = z div 146097;
          doe = z mod 146097;
          yoe = (doe - doe div 1460 + doe div 36524 - doe div 146096) div 365;
          doy = doe - (365 * yoe + yoe div 4 - yoe div 100);
          mp = (5 * doy + 2) div 153;
          d = doy - (153 * mp + 2) div 5 + 1;
          m = (if mp < 10 then mp + 3 else mp - 9);
          y = yoe + era * 400
      in (if m \<le> 2 then y + 1 else y, m, d))"

definition days_from_civil :: "int \<Rightarrow> int \<Rightarrow> int \<Rightarrow> int" where
  "days_from_civil y0 m d =
     (let y = (if m \<le> 2 then y0 - 1 else y0);
          era = y div 400;
          yoe = y mod 400;
          doy = (153 * (if m > 2 then m - 3 else m + 9) + 2) div 5 + d - 1;
          doe = yoe * 365 + yoe div 4 - yoe div 100 + doy
      in era * 146097 + doe - 719468)"

definition YearFromTime :: "int \<Rightarrow> int" where
  "YearFromTime t = fst (civil_from_days (Day t))"

text \<open>Months count from 0, as \<open>getMonth\<close> does.\<close>

definition MonthFromTime :: "int \<Rightarrow> int" where
  "MonthFromTime t = fst (snd (civil_from_days (Day t))) - 1"

definition DateFromTime :: "int \<Rightarrow> int" where
  "DateFromTime t = snd (snd (civil_from_days (Day t)))"

text \<open>\<open>MakeDay year month date\<close>, with the month counted from 0 and carried into the year.\<close>

definition MakeDay :: "int \<Rightarrow> int \<Rightarrow> int \<Rightarrow> int" where
  "MakeDay year month date =
     days_from_civil (year + month div 12) (month mod 12 + 1) 1 + date - 1"

definition getMinutes :: "zone \<Rightarrow> int \<Rightarrow> int" where
  "getMinutes z t = MinFromTime (LocalTime z t)"

definition getFullYear :: "zone \<Rightarrow> int \<Rightarrow> int" where
  "getFullYear z t = YearFromTime (LocalTime z t)"

definition getMonth :: "zone \<Rightarrow> int \<Rightarrow> int" where
  "getMonth z t = MonthFromTime (LocalTime z t)"

text \<open>\<open>date.setMinutes(min, sec, ms)\<close>: the local day and hour are kept, the three lower
  fields replaced; the new local time is read back with the offset that belongs to it, and the
  result is clipped to the range of valid dates.\<close>

definition setMinutes :: "zone \<Rightarrow> int \<Rightarrow> int \<Rightarrow> int \<Rightarrow> int \<Rightarrow> int option" where
  "setMinutes z t m s milli =
     (let lt = LocalTime z t;
          date = MakeDate (Day lt) (MakeTime (HourFromTime lt) m s milli)
      in TimeClip (UTC z date))"

text \<open>\<open>Math.round\<close> rounds to the nearest integer, a half upwards.\<close>

definition Math_round :: "rat \<Rightarrow> int" where
  "Math_round x = \<lfloor>x + 1 / 2\<rfloor>"

subsection \<open>ISO strings\<close>

definition digit :: "int \<Rightarrow> char" where
  "digit n = ''0123456789'' ! nat (n mod 10)"

fun pad :: "nat \<Rightarrow> int \<Rightarrow> string" where
  "pad 0 n = []"
| "pad (Suc k) n = pad k (n div 10) @ [digit n]"

definition year_string :: "int \<Rightarrow> string" where
  "year_string y =
     (if 0 \<le> y \<and> y \<le> 9999 then pad 4 y
      else (if y < 0 then ''-'' else ''+'') @ pad 6 \<bar>y\<bar>)"

definition iso_date :: "int \<Rightarrow> string" where
  "iso_date t = year_string (YearFromTime t) @ ''-'' @ pad 2 (MonthFromTime t + 1)
                 @ ''-'' @ pad 2 (DateFromTime t)"

definition iso_time :: "int \<Rightarrow> string" where
  "iso_time t = pad 2 (HourFromTime t) @ '':'' @ pad 2 (MinFromTime t) @ '':''
                 @ pad 2 (SecFromTime t) @ ''.'' @ pad 3 (msFromTime t) @ ''Z''"

text \<open>\<open>toISOString\<close> throws a RangeError on an invalid date: \<open>None\<close>.\<close>

definition toISOString :: "int option \<Rightarrow> string option" where
  "toISOString d = (case d of None \<Rightarrow> None | Some t \<Rightarrow> Some (iso_date t @ ''T'' @ iso_time t))"

text \<open>\<open>s.split("T")[0]\<close>: the part of the string before the first \<open>T\<close>.\<close>

definition before_T :: "string \<Rightarrow> string" where
  "before_T s = takeWhile (\<lambda>c. c \<noteq> CHR ''T'') s"

definition digit_val :: "char \<Rightarrow> int option" where
  "digit_val c =
     (let n = (of_char c :: nat) in if 48 \<le> n \<and> n \<le> 57 then Some (int n - 48) else None)"

fun digits_val :: "int \<Rightarrow> string \<Rightarrow> int option" where
  "digits_val acc [] = Some acc"
| "digits_val acc (c # cs) =
     (case digit_val c of None \<Rightarrow> None | Some v \<Rightarrow> digits_val (10 * acc + v) cs)"

text \<open>The 24-character form \<open>YYYY-MM-DDTHH:mm:ss.sssZ\<close> with every field in range; any
  other string is not a date for \<open>iso_parse\<close>.\<close>

definition iso_parse :: "string \<Rightarrow> int option" where
  "iso_parse s =
     (if length s = 24 \<and> s ! 4 = CHR ''-'' \<and> s ! 7 = CHR ''-'' \<and> s ! 10 = CHR ''T''
         \<and> s ! 13 = CHR '':'' \<and> s ! 16 = CHR '':'' \<and> s ! 19 = CHR ''.'' \<and> s ! 23 = CHR ''Z''
      then
        (case (digits_val 0 (take 4 s), digits_val 0 (take 2 (drop 5 s)),
               digits_val 0 (take 2 (drop 8 s)), digits_val 0 (take 2 (drop 11 s)),
               digits_val 0 (take 2 (drop 14 s)), digits_val 0 (take 2 (drop 17 s)),
               digits_val 0 (take 3 (drop 20 s))) of
           (Some y, Some mo, Some d, Some h, Some mi, Some sec, Some milli) \<Rightarrow>
             (if 1 \<le> mo \<and> mo \<le> 12 \<and> 1 \<le> d
                 \<and> civil_from_days (days_from_civil y mo d) = (y, mo, d)
                 \<and> h \<le> 23 \<and> mi \<le> 59 \<and> sec \<le> 59
              then Some (MakeDate (days_from_civil y mo d) (MakeTime h mi sec milli))
              else None)
         | _ \<Rightarrow> None)
      else None)"

text \<open>\<open>new Date(s)\<close> for a string: the empty string is not a date in any runtime; every other
  string is what \<open>Date.parse\<close> makes of it.\<close>

definition Date_new :: "(string \<Rightarrow> int option) \<Rightarrow> string \<Rightarrow> int option" where
  "Date_new parse s = (if s = [] then None else parse s)"

section \<open>The persisted files\<close>

text \<open>
  Costs and durations are JavaScript numbers. The model leaves the number type open: any type
  \<open>'n\<close> with a zero and an addition, so that nothing proved below depends on a law of
  arithmetic that floating-point addition lacks. A number is falsy when it is zero (a cost read
  from JSON is never NaN).

  A file is absent, or holds text that \<open>JSON.parse\<close> rejects, or holds a value of its
  declared type. Every \<open>writeFile\<close> is logged in \<open>writes\<close>. A write that the file
  system refuses (the source swallows the error) is outside the model: writes succeed.

  The fields \<open>id\<close> and \<open>cost\<close> of a session are \<open>id_s\<close> and \<open>cost_s\<close> here, and
  the \<open>cwd\<close> of the hook input is \<open>input_cwd\<close>: the names are taken otherwise.
\<close>

datatype 'a json_file = Absent | Unparsable | Content 'a

record 'n SpendSession =
  id_s :: string
  cost_s :: 'n
  date :: string
  duration_ms :: 'n
  cwd :: string

record 'n SpendData =
  sessions :: "'n SpendSession list"

record 'n PeriodCostData =
  resets_at :: string
  cost :: 'n
  last_session_id :: string

datatype file_name = SPEND_FILE | PERIOD_FILE

record 'n store =
  spend_file :: "'n SpendData json_file"
  period_file :: "'n PeriodCostData json_file"
  writes :: "file_name list"

text \<open>The fields of the hook input that the persistence code reads; the nested \<open>cost\<close>
  object is flattened.\<close>

record 'n HookInput =
  session_id :: string
  transcript_path :: string
  input_cwd :: string
  total_cost_usd :: 'n
  total_duration_ms :: 'n

section \<open>Spend tracking\<close>

definition loadSpendData :: "'n store \<Rightarrow> 'n SpendData" where
  "loadSpendData st =
     (case spend_file st of
        Absent \<Rightarrow> \<lparr>sessions = []\<rparr>
      | Unparsable \<Rightarrow> \<lparr>sessions = []\<rparr>
      | Content d \<Rightarrow> d)"

text \<open>\<open>findIndex\<close>: the first index whose element satisfies the predicate, \<open>None\<close> for
  JavaScript's \<open>-1\<close>.\<close>

fun findIndex :: "('a \<Rightarrow> bool) \<Rightarrow> 'a list \<Rightarrow> nat option" where
  "findIndex P [] = None"
| "findIndex P (x # xs) =
     (if P x then Some 0 else map_option Suc (findIndex P xs))"

definition saveSession :: "int \<Rightarrow> ('n::zero) store \<Rightarrow> 'n HookInput \<Rightarrow> 'n store" where
  "saveSession now st input =
     (if session_id input = [] \<or> total_cost_usd input = 0 then st
      else
        (let data = loadSpendData st in
         case toISOString (Some now) of
           None \<Rightarrow> st
         | Some isoString \<Rightarrow>
             (let today = before_T isoString;
                  session = \<lparr>id_s = session_id input, cost_s = total_cost_usd input,
                             date = today, duration_ms = total_duration_ms input,
                             cwd = input_cwd input\<rparr>;
                  data' = (case findIndex (\<lambda>s. id_s s = session_id input) (sessions data) of
                             Some idx \<Rightarrow> data\<lparr>sessions := (sessions data)[idx := session]\<rparr>
                           | None \<Rightarrow> data\<lparr>sessions := sessions data @ [session]\<rparr>)
              in st\<lparr>spend_file := Content data', writes := writes st @ [SPEND_FILE]\<rparr>)))"

section \<open>Period cost (5h window)\<close>

definition loadPeriodData :: "'n store \<Rightarrow> 'n PeriodCostData option" where
  "loadPeriodData st =
     (case period_file st of
        Absent \<Rightarrow> None
      | Unparsable \<Rightarrow> None
      | Content d \<Rightarrow> Some d)"

definition savePeriodData :: "'n store \<Rightarrow> 'n PeriodCostData \<Rightarrow> 'n store" where
  "savePeriodData st d = st\<lparr>period_file := Content d, writes := writes st @ [PERIOD_FILE]\<rparr>"

text \<open>The normalisation inside \<open>updatePeriodCost\<close>: the minutes field rounded to a multiple of
  five, seconds and milliseconds set to zero, the result as an ISO string. \<open>None\<close> when
  \<open>toISOString\<close> throws.\<close>

definition normalizedTime :: "zone \<Rightarrow> int \<Rightarrow> int option" where
  "normalizedTime z t =
     (let mins = getMinutes z t
      in setMinutes z t (Math_round (of_int mins / 5) * 5) 0 0)"

definition normalizedReset :: "(string \<Rightarrow> int option) \<Rightarrow> zone \<Rightarrow> string \<Rightarrow> string option" where
  "normalizedReset parse z resetsAt =
     (case Date_new parse resetsAt of
        None \<Rightarrow> None
      | Some t \<Rightarrow> toISOString (normalizedTime z t))"

definition updatePeriodCost ::
  "(string \<Rightarrow> int option) \<Rightarrow> zone \<Rightarrow> ('n::{zero,plus}) store \<Rightarrow> string \<Rightarrow> 'n \<Rightarrow> string option
     \<Rightarrow> 'n store" where
  "updatePeriodCost parse z st sessionId sessionCost resetsAt =
     (case resetsAt of
        None \<Rightarrow> st
      | Some r \<Rightarrow>
          if r = [] \<or> sessionCost = 0 then st
          else
            (let data = loadPeriodData st in
             case normalizedReset parse z r of
               None \<Rightarrow> st
             | Some normalized \<Rightarrow>
                 (case data of
                    Some d \<Rightarrow>
                      if resets_at d = normalized then
                        (if last_session_id d \<noteq> sessionId
                         then savePeriodData st
                                (d\<lparr>cost := cost d + sessionCost, last_session_id := sessionId\<rparr>)
                         else st)
                      else savePeriodData st
                             \<lparr>resets_at = normalized, cost = sessionCost,
                              last_session_id = sessionId\<rparr>
                  | None \<Rightarrow>
                      savePeriodData st
                        \<lparr>resets_at = normalized, cost = sessionCost,
                         last_session_id = sessionId\<rparr>)))"

text \<open>\<open>Date.now() > resetTime\<close> is false when \<open>resetTime\<close> is NaN.\<close>

definition getCurrentPeriodCost ::
  "(string \<Rightarrow> int option) \<Rightarrow> int \<Rightarrow> ('n::zero) store \<Rightarrow> 'n" where
  "getCurrentPeriodCost parse now st =
     (case loadPeriodData st of
        None \<Rightarrow> 0
      | Some d \<Rightarrow>
          (case Date_new parse (resets_at d) of
             Some resetTime \<Rightarrow> if now > resetTime then 0 else cost d
           | None \<Rightarrow> cost d))"

section \<open>Context tokens\<close>

text \<open>
  A transcript is read line by line. A line is \<open>None\<close> when \<open>JSON.parse\<close> throws on it (or
  yields \<open>null\<close>, whose property read throws as well); otherwise it is the view of the parsed
  value that the scanner reads: \<open>message_usage\<close> is \<open>data.message?.usage\<close> when truthy,
  the two flags are the truthiness of \<open>isSidechain\<close> and \<open>isApiErrorMessage\<close>, and
  \<open>timestamp\<close> is the timestamp string when present. A token count that is absent reads as 0.
\<close>

record usage =
  input_tokens :: "int option"
  cache_read_input_tokens :: "int option"
  cache_creation_input_tokens :: "int option"

record entry =
  message_usage :: "usage option"
  isSidechain :: bool
  isApiErrorMessage :: bool
  timestamp :: "string option"

definition or0 :: "int option \<Rightarrow> int" where
  "or0 v = (case v of None \<Rightarrow> 0 | Some n \<Rightarrow> n)"

definition usage_tokens :: "usage \<Rightarrow> int" where
  "usage_tokens u =
     or0 (input_tokens u) + or0 (cache_read_input_tokens u) + or0 (cache_creation_input_tokens u)"

text \<open>\<open>time > latest\<close> on two Dates: false when either is invalid.\<close>

definition date_gt :: "int option \<Rightarrow> int option \<Rightarrow> bool" where
  "date_gt a b = (case (a, b) of (Some x, Some y) \<Rightarrow> x > y | _ \<Rightarrow> False)"

text \<open>The loop of \<open>getContextTokens\<close>, with its two variables: \<open>tokens\<close>, and \<open>latest\<close>,
  which is \<open>None\<close> for \<open>null\<close> and \<open>Some d\<close> for a Date \<open>d\<close>.\<close>

fun scan_lines ::
  "(string \<Rightarrow> int option) \<Rightarrow> entry option list \<Rightarrow> int \<Rightarrow> int option option \<Rightarrow> int" where
  "scan_lines parse [] tokens latest = tokens"
| "scan_lines parse (None # ls) tokens latest = scan_lines parse ls tokens latest"
| "scan_lines parse (Some data # ls) tokens latest =
     (case (message_usage data, timestamp data) of
        (Some u, Some ts) \<Rightarrow>
          if isSidechain data \<or> isApiErrorMessage data \<or> ts = []
          then scan_lines parse ls tokens latest
          else
            (let time = Date_new parse ts in
             if (case latest of None \<Rightarrow> True | Some l \<Rightarrow> date_gt time l)
             then scan_lines parse ls (usage_tokens u) (Some time)
             else scan_lines parse ls tokens latest)
      | _ \<Rightarrow> scan_lines parse ls tokens latest)"

definition getContextTokens ::
  "(string \<Rightarrow> int option) \<Rightarrow> (string \<rightharpoonup> entry option list) \<Rightarrow> string \<Rightarrow> int" where
  "getContextTokens parse fs transcriptPath =
     (if transcriptPath = [] then 0
      else
        (case fs transcriptPath of
           None \<Rightarrow> 0
         | Some lines \<Rightarrow> scan_lines parse lines 0 None))"

section \<open>The month report\<close>

text \<open>Strings compare by their code units, the first difference deciding; \<open>localeCompare\<close>
  orders strings of digits and hyphens the same way.\<close>

fun str_lt :: "string \<Rightarrow> string \<Rightarrow> bool" where
  "str_lt [] [] = False"
| "str_lt [] (y # ys) = True"
| "str_lt (x # xs) [] = False"
| "str_lt (x # xs) (y # ys) =
     ((of_char x :: nat) < of_char y \<or> (x = y \<and> str_lt xs ys))"

definition str_ge :: "string \<Rightarrow> string \<Rightarrow> bool" where
  "str_ge a b = (\<not> str_lt a b)"

definition localeCompare :: "string \<Rightarrow> string \<Rightarrow> int" where
  "localeCompare a b = (if str_lt a b then - 1 else if a = b then 0 else 1)"

text \<open>\<open>new Date(year, month, day)\<close>: midnight of that day in local time; a year from 0 to 99
  means 1900 + year.\<close>

definition Date_local :: "zone \<Rightarrow> int \<Rightarrow> int \<Rightarrow> int \<Rightarrow> int option" where
  "Date_local z year month day =
     (let yr = (if 0 \<le> year \<and> year \<le> 99 then 1900 + year else year)
      in TimeClip (UTC z (MakeDate (MakeDay yr month day) 0)))"

definition monthStart :: "zone \<Rightarrow> int \<Rightarrow> string option" where
  "monthStart z now =
     map_option before_T
       (toISOString (Date_local z (getFullYear z now) (getMonth z now) 1))"

text \<open>The \<open>Map\<close> from date to sessions keeps its keys in insertion order: an association
  list, where \<open>set\<close> on a key that is present replaces the value in place.\<close>

fun map_set :: "('k \<times> 'v) list \<Rightarrow> 'k \<Rightarrow> 'v \<Rightarrow> ('k \<times> 'v) list" where
  "map_set [] k v = [(k, v)]"
| "map_set ((k', v') # m) k v =
     (if k' = k then (k, v) # m else (k', v') # map_set m k v)"

definition map_get_or_empty :: "('k \<times> 'v list) list \<Rightarrow> 'k \<Rightarrow> 'v list" where
  "map_get_or_empty m k = (case map_of m k of None \<Rightarrow> [] | Some v \<Rightarrow> v)"

fun group_by_date ::
  "(string \<times> 'n SpendSession list) list \<Rightarrow> 'n SpendSession list
     \<Rightarrow> (string \<times> 'n SpendSession list) list" where
  "group_by_date byDate [] = byDate"
| "group_by_date byDate (session # rest) =
     (let existing = map_get_or_empty byDate (date session)
      in group_by_date (map_set byDate (date session) (existing @ [session])) rest)"

text \<open>\<open>Array.prototype.sort\<close> with a comparator is a stable sort; insertion from the left
  is one.\<close>

fun insert_cmp :: "('a \<Rightarrow> 'a \<Rightarrow> int) \<Rightarrow> 'a \<Rightarrow> 'a list \<Rightarrow> 'a list" where
  "insert_cmp cmp x [] = [x]"
| "insert_cmp cmp x (y # ys) =
     (if cmp x y < 0 then x # y # ys else y # insert_cmp cmp x ys)"

definition sort_cmp :: "('a \<Rightarrow> 'a \<Rightarrow> int) \<Rightarrow> 'a list \<Rightarrow> 'a list" where
  "sort_cmp cmp xs = foldl (\<lambda>acc x. insert_cmp cmp x acc) [] xs"

record 'n day_row =
  row_date :: string
  dayCost :: 'n
  dayDuration :: 'n
  day_sessions :: nat

record 'n totals =
  grandTotal :: 'n
  grandDuration :: 'n
  grandSessions :: nat

text \<open>The loop over the sorted dates: one printed row per date, and the running totals.\<close>

fun report_rows ::
  "(string \<times> ('n::{zero,plus}) SpendSession list) list \<Rightarrow> string list \<Rightarrow> 'n totals
     \<Rightarrow> 'n day_row list \<times> 'n totals" where
  "report_rows byDate [] tot = ([], tot)"
| "report_rows byDate (d # ds) tot =
     (let ss = map_get_or_empty byDate d;
          dc = foldl (\<lambda>acc s. acc + cost_s s) 0 ss;
          dd = foldl (\<lambda>acc s. acc + duration_ms s) 0 ss;
          row = \<lparr>row_date = d, dayCost = dc, dayDuration = dd, day_sessions = length ss\<rparr>;
          tot' = \<lparr>grandTotal = grandTotal tot + dc, grandDuration = grandDuration tot + dd,
                  grandSessions = grandSessions tot + length ss\<rparr>;
          (rows, final) = report_rows byDate ds tot'
      in (row # rows, final))"

datatype js_error = SyntaxError | RangeError

datatype 'n month_output =
    NoSpendData
  | NoSessionsThisMonth
  | Report "'n day_row list" "'n totals"

text \<open>\<open>main\<close> of the month command. What it prints is returned as data: the rows in printing
  order and the totals of the last line, before they are formatted.\<close>

definition month_main ::
  "zone \<Rightarrow> int \<Rightarrow> ('n::{zero,plus}) SpendData json_file \<Rightarrow> js_error + 'n month_output" where
  "month_main z now spend =
     (case spend of
        Absent \<Rightarrow> Inr NoSpendData
      | Unparsable \<Rightarrow> Inl SyntaxError
      | Content data \<Rightarrow>
          (case monthStart z now of
             None \<Rightarrow> Inl RangeError
           | Some start \<Rightarrow>
               (let monthSessions = filter (\<lambda>s. str_ge (date s) start) (sessions data) in
                if length monthSessions = 0 then Inr NoSessionsThisMonth
                else
                  (let byDate = group_by_date [] monthSessions;
                       sortedDates = sort_cmp (\<lambda>a b. localeCompare b a) (map fst byDate);
                       (rows, tot) = report_rows byDate sortedDates
                                       \<lparr>grandTotal = 0, grandDuration = 0, grandSessions = 0\<rparr>
                   in Inr (Report rows tot)))))"

section \<open>Concrete stores and inputs\<close>

text \<open>A persisted period record of the window that resets at 15:00 UTC on 2 November 2025, with
  5 dollars spent so far, last updated by session \<open>s1\<close>; and the store that holds it.\<close>

definition period_d :: "rat PeriodCostData" where
  "period_d = \<lparr>resets_at = ''2025-11-02T15:00:00.000Z'', cost = 5, last_session_id = ''s1''\<rparr>"

definition period_example :: "rat store" where
  "period_example = \<lparr>spend_file = Absent, period_file = Content period_d, writes = []\<rparr>"

definition empty_store :: "rat store" where
  "empty_store = \<lparr>spend_file = Absent, period_file = Absent, writes = []\<rparr>"

definition hook_example :: "string \<Rightarrow> rat \<Rightarrow> rat HookInput" where
  "hook_example sid c =
     \<lparr>session_id = sid, transcript_path = ''C:/t/session.jsonl'', input_cwd = ''C:/work'',
      total_cost_usd = c, total_duration_ms = 60000\<rparr>"

text \<open>The replace-or-append step of \<open>saveSession\<close>, on its own: the record replaces the
  first record with its id, or goes to the end.\<close>

definition upsert :: "'n SpendSession \<Rightarrow> 'n SpendSession list \<Rightarrow> 'n SpendSession list" where
  "upsert r xs =
     (case findIndex (\<lambda>s. id_s s = id_s r) xs of
        Some idx \<Rightarrow> xs[idx := r]
      | None \<Rightarrow> xs @ [r])"

text \<open>The ledger that the next invocation loads.\<close>

definition ledger :: "'n store \<Rightarrow> 'n SpendSession list" where
  "ledger st = sessions (loadSpendData st)"

text \<open>A ledger with two sessions of two days.\<close>

definition spend_example :: "rat store" where
  "spend_example =
     \<lparr>spend_file = Content \<lparr>sessions =
        [\<lparr>id_s = ''s1'', cost_s = 3, date = ''2025-11-01'', duration_ms = 120000,
          cwd = ''C:/work''\<rparr>,
         \<lparr>id_s = ''s0'', cost_s = 2, date = ''2025-10-31'', duration_ms = 60000,
          cwd = ''C:/work''\<rparr>]\<rparr>,
      period_file = Absent, writes = []\<rparr>"

section \<open>The latest usage record, as the specification words it\<close>

text \<open>
  A record counts when it carries a usage snapshot, is neither a side-channel nor an
  error-marked record, and has a timestamp. A counting record is dated when \<open>Date\<close> can
  parse its timestamp. Among the dated records of a transcript, the latest is the first one
  whose time no other exceeds. \<open>scan_usable\<close> is the loop of \<open>scan_lines\<close> run over the
  counting records only.
\<close>

definition usable :: "entry \<Rightarrow> bool" where
  "usable e = (message_usage e \<noteq> None \<and> \<not> isSidechain e \<and> \<not> isApiErrorMessage e
               \<and> timestamp e \<noteq> None \<and> timestamp e \<noteq> Some [])"

fun valid_records :: "entry option list \<Rightarrow> entry list" where
  "valid_records [] = []"
| "valid_records (None # ls) = valid_records ls"
| "valid_records (Some e # ls) = (if usable e then e # valid_records ls else valid_records ls)"

definition entry_time :: "(string \<Rightarrow> int option) \<Rightarrow> entry \<Rightarrow> int option" where
  "entry_time parse e = (case timestamp e of None \<Rightarrow> None | Some ts \<Rightarrow> Date_new parse ts)"

definition entry_tokens :: "entry \<Rightarrow> int" where
  "entry_tokens e = (case message_usage e of None \<Rightarrow> 0 | Some u \<Rightarrow> usage_tokens u)"

definition time_le :: "int option \<Rightarrow> int option \<Rightarrow> bool" where
  "time_le a b = (case (a, b) of (Some x, Some y) \<Rightarrow> x \<le> y | _ \<Rightarrow> False)"

definition latest_record :: "(string \<Rightarrow> int option) \<Rightarrow> entry list \<Rightarrow> entry option" where
  "latest_record parse es =
     find (\<lambda>e. list_all (\<lambda>e'. time_le (entry_time parse e') (entry_time parse e)) es) es"

definition dated_records :: "(string \<Rightarrow> int option) \<Rightarrow> entry option list \<Rightarrow> entry list" where
  "dated_records parse ls = filter (\<lambda>e. entry_time parse e \<noteq> None) (valid_records ls)"

text \<open>The first counting record, if there is one, is dated.\<close>

definition first_dated :: "(string \<Rightarrow> int option) \<Rightarrow> entry list \<Rightarrow> bool" where
  "first_dated parse es = (case es of [] \<Rightarrow> True | e # _ \<Rightarrow> entry_time parse e \<noteq> None)"

fun scan_usable ::
  "(string \<Rightarrow> int option) \<Rightarrow> entry list \<Rightarrow> int \<Rightarrow> int option option \<Rightarrow> int" where
  "scan_usable parse [] tokens latest = tokens"
| "scan_usable parse (e # es) tokens latest =
     (if (case latest of None \<Rightarrow> True | Some l \<Rightarrow> date_gt (entry_time parse e) l)
      then scan_usable parse es (entry_tokens e) (Some (entry_time parse e))
      else scan_usable parse es tokens latest)"

text \<open>A transcript of six lines: a usage record of 10:00, a line that is not JSON, a
  side-channel record of 10:09, a usage record of 10:05, a usage record whose timestamp is not
  a date, and a usage record of 10:02.\<close>

definition usage_example :: "int \<Rightarrow> int \<Rightarrow> int \<Rightarrow> usage" where
  "usage_example i r c =
     \<lparr>input_tokens = Some i, cache_read_input_tokens = Some r,
      cache_creation_input_tokens = Some c\<rparr>"

definition transcript_example :: "entry option list" where
  "transcript_example =
     [Some \<lparr>message_usage = Some (usage_example 100 20 3), isSidechain = False,
            isApiErrorMessage = False, timestamp = Some ''2025-11-02T10:00:00.000Z''\<rparr>,
      None,
      Some \<lparr>message_usage = Some (usage_example 900 90 9), isSidechain = True,
            isApiErrorMessage = False, timestamp = Some ''2025-11-02T10:09:00.000Z''\<rparr>,
      Some \<lparr>message_usage = Some (usage_example 200 40 5), isSidechain = False,
            isApiErrorMessage = False, timestamp = Some ''2025-11-02T10:05:00.000Z''\<rparr>,
      Some \<lparr>message_usage = Some (usage_example 50 10 1), isSidechain = False,
            isApiErrorMessage = False, timestamp = Some ''garbage''\<rparr>,
      Some \<lparr>message_usage = Some (usage_example 150 30 4), isSidechain = False,
            isApiErrorMessage = False, timestamp = Some ''2025-11-02T10:02:00.000Z''\<rparr>]"

text \<open>The same transcript after a first line that is a usage record of 7 tokens whose
  timestamp is not a date.\<close>

definition locked_example :: "entry option list" where
  "locked_example =
     Some \<lparr>message_usage = Some (usage_example 7 0 0), isSidechain = False,
           isApiErrorMessage = False, timestamp = Some ''garbage''\<rparr>
     # transcript_example"

definition locked_fs :: "string \<rightharpoonup> entry option list" where
  "locked_fs = [''C:/t/session.jsonl'' \<mapsto> locked_example]"

definition transcript_fs :: "string \<rightharpoonup> entry option list" where
  "transcript_fs = [''C:/t/session.jsonl'' \<mapsto> transcript_example]"

text \<open>A ledger with one session dated 31 October 2025 and one dated 3 November 2025.\<close>

definition two_months :: "rat SpendData" where
  "two_months =
     \<lparr>sessions =
        [\<lparr>id_s = ''a'', cost_s = 1, date = ''2025-10-31'', duration_ms = 60000,
          cwd = ''C:/work''\<rparr>,
         \<lparr>id_s = ''b'', cost_s = 2, date = ''2025-11-03'', duration_ms = 120000,
          cwd = ''C:/work''\<rparr>]\<rparr>"

section \<open>The period tracker: theorems\<close>

lemma normalizedReset_nonempty:
  "normalizedReset parse z r = Some k \<Longrightarrow> r \<noteq> []"
  by (auto simp: normalizedReset_def Date_new_def)

lemma loadPeriodData_Content:
  "period_file st = Content d \<Longrightarrow> loadPeriodData st = Some d"
  by (simp add: loadPeriodData_def)

lemma loadPeriodData_None:
  "(\<forall>d. period_file st \<noteq> Content d) \<Longrightarrow> loadPeriodData st = None"
  by (cases "period_file st") (simp_all add: loadPeriodData_def)

text \<open>
  C1, as the code has it. In the same window (the reset timestamp normalises to the stored key),
  a call for a session other than the last recorded one, with a session cost that is not zero,
  writes the record with the session cost added to the cumulative cost and the session as the
  last session; the key is kept. The zero-cost call is excluded: the guard at the head of
  \<open>updatePeriodCost\<close> returns before anything is read.
\<close>

theorem updatePeriodCost_same_window_new_session:
  assumes "period_file st = Content d"
    and "normalizedReset parse z r = Some (resets_at d)"
    and "sessionId \<noteq> last_session_id d"
    and "sessionCost \<noteq> 0"
  shows "updatePeriodCost parse z st sessionId sessionCost (Some r) =
           st\<lparr>period_file := Content (d\<lparr>cost := cost d + sessionCost,
                                         last_session_id := sessionId\<rparr>),
              writes := writes st @ [PERIOD_FILE]\<rparr>"
proof -
  have "r \<noteq> []"
    using assms(2) by (rule normalizedReset_nonempty)
  moreover have "loadPeriodData st = Some d"
    using assms(1) by (rule loadPeriodData_Content)
  ultimately show ?thesis
    using assms(2-4) by (simp add: updatePeriodCost_def savePeriodData_def)
qed

theorem updatePeriodCost_same_window_new_session_witness:
  "updatePeriodCost iso_parse (fixed_zone 0) period_example ''s2'' (1 / 4) (Some ''2025-11-02T14:59:59.812Z'') =
     \<lparr>spend_file = Absent,
      period_file = Content \<lparr>resets_at = ''2025-11-02T15:00:00.000Z'', cost = 21 / 4,
                              last_session_id = ''s2''\<rparr>,
      writes = [PERIOD_FILE]\<rparr>"
proof -
  have h1: "period_file period_example = Content period_d"
    by (simp add: period_example_def)
  have h2: "normalizedReset iso_parse (fixed_zone 0) ''2025-11-02T14:59:59.812Z'' = Some (resets_at period_d)"
    by code_simp
  have h3: "''s2'' \<noteq> last_session_id period_d"
    by (simp add: period_d_def)
  have h4: "(1 / 4 :: rat) \<noteq> 0"
    by simp
  show ?thesis
    using updatePeriodCost_same_window_new_session [OF h1 h2 h3 h4]
    by (simp add: period_example_def period_d_def)
qed

text \<open>
  C1 as stated fails: session \<open>s2\<close> reports a cost of zero in the window of the stored
  record, whose last session is \<open>s1\<close>. The timestamp normalises to the stored key and the
  session differs, yet the last session of the record is still \<open>s1\<close> after the call.
\<close>

theorem updatePeriodCost_zero_cost_counterexample:
  "period_file period_example = Content period_d
   \<and> normalizedReset iso_parse (fixed_zone 0) ''2025-11-02T14:59:59.812Z'' = Some (resets_at period_d)
   \<and> ''s2'' \<noteq> last_session_id period_d
   \<and> map_option last_session_id
        (loadPeriodData (updatePeriodCost iso_parse (fixed_zone 0) period_example ''s2'' 0
                           (Some ''2025-11-02T14:59:59.812Z''))) = Some ''s1''"
  by code_simp

text \<open>
  C2, as the code has it. With a reset timestamp that has a normalised key (a string that
  \<open>Date\<close> parses, rounded to a time that is still a valid date) and a session cost that is not
  zero, when no record is persisted or the persisted key differs from the new one, the call
  writes a fresh record: the new key, the session cost alone, the session id.
\<close>

theorem updatePeriodCost_new_window:
  assumes "normalizedReset parse z r = Some k"
    and "sessionCost \<noteq> 0"
    and "\<forall>d. period_file st = Content d \<longrightarrow> resets_at d \<noteq> k"
  shows "updatePeriodCost parse z st sessionId sessionCost (Some r) =
           st\<lparr>period_file := Content \<lparr>resets_at = k, cost = sessionCost,
                                      last_session_id = sessionId\<rparr>,
              writes := writes st @ [PERIOD_FILE]\<rparr>"
proof -
  have ne: "r \<noteq> []"
    using assms(1) by (rule normalizedReset_nonempty)
  show ?thesis
  proof (cases "loadPeriodData st")
    case None
    then show ?thesis
      using ne assms(1,2) by (simp add: updatePeriodCost_def savePeriodData_def)
  next
    case (Some d)
    then have "period_file st = Content d"
      by (cases "period_file st") (simp_all add: loadPeriodData_def)
    then have "resets_at d \<noteq> k"
      using assms(3) by simp
    then show ?thesis
      using ne assms(1,2) Some by (simp add: updatePeriodCost_def savePeriodData_def)
  qed
qed

theorem updatePeriodCost_new_window_witness:
  "updatePeriodCost iso_parse (fixed_zone 0) empty_store ''s2'' (1 / 4) (Some ''2025-11-02T15:00:00.310Z'') =
     \<lparr>spend_file = Absent,
      period_file = Content \<lparr>resets_at = ''2025-11-02T15:00:00.000Z'', cost = 1 / 4,
                              last_session_id = ''s2''\<rparr>,
      writes = [PERIOD_FILE]\<rparr>
   \<and> updatePeriodCost iso_parse (fixed_zone 0) period_example ''s2'' (1 / 4)
         (Some ''2025-11-02T20:00:00.310Z'') =
     \<lparr>spend_file = Absent,
      period_file = Content \<lparr>resets_at = ''2025-11-02T20:00:00.000Z'', cost = 1 / 4,
                              last_session_id = ''s2''\<rparr>,
      writes = [PERIOD_FILE]\<rparr>"
proof -
  have k1: "normalizedReset iso_parse (fixed_zone 0) ''2025-11-02T15:00:00.310Z''
              = Some ''2025-11-02T15:00:00.000Z''"
    by code_simp
  have k2: "normalizedReset iso_parse (fixed_zone 0) ''2025-11-02T20:00:00.310Z''
              = Some ''2025-11-02T20:00:00.000Z''"
    by code_simp
  have c: "(1 / 4 :: rat) \<noteq> 0"
    by simp
  have n1: "\<forall>d. period_file empty_store = Content d
              \<longrightarrow> resets_at d \<noteq> ''2025-11-02T15:00:00.000Z''"
    by (simp add: empty_store_def)
  have n2: "\<forall>d. period_file period_example = Content d
              \<longrightarrow> resets_at d \<noteq> ''2025-11-02T20:00:00.000Z''"
    by (simp add: period_example_def period_d_def)
  show ?thesis
    using updatePeriodCost_new_window [OF k1 c n1, of "''s2''"]
          updatePeriodCost_new_window [OF k2 c n2, of "''s2''"]
    by (simp add: empty_store_def period_example_def)
qed

text \<open>
  C2 as stated fails: with no record persisted and a session cost of 1/4, a reset timestamp
  that is a string but not a date (\<open>toISOString\<close> throws on the invalid date, and the error is
  swallowed), or the empty string (the guard returns), leaves the store as it was: no record
  is written.
\<close>

theorem updatePeriodCost_unparsable_counterexample:
  "period_file empty_store = Absent
   \<and> (1 / 4 :: rat) \<noteq> 0
   \<and> iso_parse ''garbage'' = None
   \<and> updatePeriodCost iso_parse (fixed_zone 0) empty_store ''s2'' (1 / 4) (Some ''garbage'')
       = empty_store
   \<and> updatePeriodCost iso_parse (fixed_zone 0) empty_store ''s2'' (1 / 4) (Some [])
       = empty_store"
  by code_simp

text \<open>
  C3. In the same window, a call for the session that is already the last recorded one changes
  nothing: the store after the call is the store before it, and no write is logged.
\<close>

theorem updatePeriodCost_same_session_unchanged:
  assumes "period_file st = Content d"
    and "normalizedReset parse z r = Some (resets_at d)"
    and "sessionId = last_session_id d"
  shows "updatePeriodCost parse z st sessionId sessionCost (Some r) = st"
  using assms loadPeriodData_Content [OF assms(1)]
  by (simp add: updatePeriodCost_def)

theorem updatePeriodCost_same_session_unchanged_witness:
  "updatePeriodCost iso_parse (fixed_zone 0) period_example ''s1'' (1 / 4)
     (Some ''2025-11-02T14:59:59.812Z'') = period_example
   \<and> writes (updatePeriodCost iso_parse (fixed_zone 0) period_example ''s1'' (1 / 4)
                (Some ''2025-11-02T14:59:59.812Z'')) = []"
proof -
  have h1: "period_file period_example = Content period_d"
    by (simp add: period_example_def)
  have h2: "normalizedReset iso_parse (fixed_zone 0) ''2025-11-02T14:59:59.812Z'' = Some (resets_at period_d)"
    by code_simp
  have h3: "''s1'' = last_session_id period_d"
    by (simp add: period_d_def)
  show ?thesis
    using updatePeriodCost_same_session_unchanged [OF h1 h2 h3, of "1 / 4"]
    by (simp add: period_example_def)
qed

text \<open>
  C5. \<open>getCurrentPeriodCost\<close> is 0 when no record is persisted, and 0 when the reset instant
  of the record is before the current time; in every other case it is the cumulative cost of
  the record.
\<close>

theorem getCurrentPeriodCost_cases:
  "((\<forall>d. period_file st \<noteq> Content d) \<longrightarrow> getCurrentPeriodCost parse now st = 0)
   \<and> (\<forall>d t. period_file st = Content d \<and> Date_new parse (resets_at d) = Some t \<and> t < now
         \<longrightarrow> getCurrentPeriodCost parse now st = 0)
   \<and> (\<forall>d. period_file st = Content d
            \<and> \<not> (\<exists>t. Date_new parse (resets_at d) = Some t \<and> t < now)
         \<longrightarrow> getCurrentPeriodCost parse now st = cost d)"
proof (intro conjI allI impI)
  assume "\<forall>d. period_file st \<noteq> Content d"
  then have "loadPeriodData st = None"
    by (rule loadPeriodData_None)
  then show "getCurrentPeriodCost parse now st = 0"
    by (simp add: getCurrentPeriodCost_def)
next
  fix d t
  assume "period_file st = Content d \<and> Date_new parse (resets_at d) = Some t \<and> t < now"
  then show "getCurrentPeriodCost parse now st = 0"
    by (simp add: getCurrentPeriodCost_def loadPeriodData_def)
next
  fix d
  assume a: "period_file st = Content d
               \<and> \<not> (\<exists>t. Date_new parse (resets_at d) = Some t \<and> t < now)"
  then have "loadPeriodData st = Some d"
    by (simp add: loadPeriodData_def)
  then show "getCurrentPeriodCost parse now st = cost d"
    using a by (cases "Date_new parse (resets_at d)") (auto simp: getCurrentPeriodCost_def)
qed

text \<open>The three cases at 2 November 2025: no record; the record read at 16:00 UTC, an hour
  after its reset; the record read at 14:00 UTC, an hour before it.\<close>

theorem getCurrentPeriodCost_cases_witness:
  "getCurrentPeriodCost iso_parse 1762099200000 empty_store = 0
   \<and> getCurrentPeriodCost iso_parse 1762099200000 period_example = 0
   \<and> getCurrentPeriodCost iso_parse 1762092000000 period_example = 5"
proof -
  have a: "\<forall>d. period_file empty_store \<noteq> Content d"
    by (simp add: empty_store_def)
  have b: "period_file period_example = Content period_d"
    by (simp add: period_example_def)
  have t: "Date_new iso_parse (resets_at period_d) = Some 1762095600000"
    by code_simp
  have past: "(1762095600000 :: int) < 1762099200000"
    by simp
  have future: "\<not> (\<exists>t. Date_new iso_parse (resets_at period_d) = Some t \<and> t < 1762092000000)"
    using t by simp
  have c: "cost period_d = 5"
    by (simp add: period_d_def)
  have w1: "getCurrentPeriodCost iso_parse 1762099200000 empty_store = 0"
    using getCurrentPeriodCost_cases [of empty_store iso_parse 1762099200000] a
    by (elim conjE) simp
  have w2: "getCurrentPeriodCost iso_parse 1762099200000 period_example = 0"
    using getCurrentPeriodCost_cases [of period_example iso_parse 1762099200000] b t past
    by (elim conjE) simp
  have w3: "getCurrentPeriodCost iso_parse 1762092000000 period_example = cost period_d"
    using getCurrentPeriodCost_cases [of period_example iso_parse 1762092000000] b future
    by (elim conjE) simp
  show ?thesis
    using w1 w2 w3 c by simp
qed

text \<open>
  C6. A call with no reset timestamp, or with a session cost of zero, is a no-op: the store
  after the call is the store before it, so no record is created and none is modified.
\<close>

theorem updatePeriodCost_guard_noop:
  assumes "resetsAt = None \<or> sessionCost = 0"
  shows "updatePeriodCost parse z st sessionId sessionCost resetsAt = st"
  using assms by (auto simp: updatePeriodCost_def split: option.splits)

theorem updatePeriodCost_guard_noop_witness:
  "updatePeriodCost iso_parse (fixed_zone 0) empty_store ''s2'' (1 / 4) None = empty_store
   \<and> updatePeriodCost iso_parse (fixed_zone 0) period_example ''s2'' 0
        (Some ''2025-11-02T20:00:00.310Z'') = period_example"
proof -
  have a: "(None :: string option) = None \<or> (1 / 4 :: rat) = 0"
    by simp
  have b: "Some ''2025-11-02T20:00:00.310Z'' = None \<or> (0 :: rat) = 0"
    by simp
  show ?thesis
    using updatePeriodCost_guard_noop [OF a, of iso_parse "fixed_zone 0" empty_store "''s2''"]
          updatePeriodCost_guard_noop [OF b, of iso_parse "fixed_zone 0" period_example "''s2''"]
    by simp
qed

section \<open>The normalised key: theorems\<close>

lemma round_arith: "(2 * m + 5) div 10 = (m + 2) div (5::int)"
proof -
  have "(2 * m + 5) div (2 * 5) = ((2 * m + 5) div 2) div (5::int)"
    by (rule zdiv_zmult2_eq) simp
  moreover have "(2 * m + 5) div 2 = m + (2::int)"
    by simp
  ultimately show ?thesis by simp
qed

lemma Math_round_fifth:
  "Math_round (of_int m / 5) = (m + 2) div 5"
proof -
  have "(of_int m / 5 + 1 / 2 :: rat) = of_int (2 * m + 5) / of_int 10"
    by simp
  then have "Math_round (of_int m / 5) = (2 * m + 5) div 10"
    unfolding Math_round_def by (simp only: floor_divide_of_int_eq)
  then show ?thesis
    by (simp only: round_arith)
qed

lemma hours_arith:
  fixes a :: int
  shows "(a div 24) * 1440 + (a mod 24) * 60 = 60 * a"
proof -
  define d where "d = a div 24"
  define m where "m = a mod 24"
  have "a = 24 * d + m"
    by (simp add: d_def m_def)
  then show ?thesis
    unfolding d_def[symmetric] m_def[symmetric] by linarith
qed

lemma fifths_arith:
  fixes a b :: int
  shows "(60 * a + b + 2) div 5 = 12 * a + (b + 2) div 5"
proof -
  have "(60 * a + b + 2) = (b + 2) + 5 * (12 * a)"
    by simp
  then show ?thesis
    by (simp only: div_mult_self2)
qed

lemma minutes_arith:
  fixes q :: int
  shows "(q div 1440) * 1440 + ((q div 60) mod 24) * 60 + ((q mod 60 + 2) div 5) * 5
           = ((q + 2) div 5) * 5"
proof -
  define a where "a = q div 60"
  define b where "b = q mod 60"
  have q: "q = 60 * a + b"
    by (simp add: a_def b_def)
  have "q div 1440 = a div 24"
    unfolding a_def by (simp add: div_mult2_eq[symmetric])
  then have "(q div 1440) * 1440 + (a mod 24) * 60 = 60 * a"
    by (simp only: hours_arith)
  moreover have "(q + 2) div 5 = 12 * a + (b + 2) div 5"
    unfolding q by (rule fifths_arith)
  ultimately show ?thesis
    by (simp add: a_def[symmetric] b_def[symmetric])
qed

lemma window_arith:
  fixes l :: int
  shows "(l + 120000) div 300000 = (l div 60000 + 2) div 5"
proof -
  have "(l + 120000) div 60000 = l div 60000 + 2"
    by simp
  moreover have "(l + 120000) div (60000 * 5) = ((l + 120000) div 60000) div 5"
    by (rule zdiv_zmult2_eq) simp
  ultimately show ?thesis by simp
qed

lemma Day_minutes: "Day l = (l div 60000) div 1440"
  using zdiv_zmult2_eq [of 1440 l 60000] by (simp add: Day_def msPerDay_def)

lemma HourFromTime_minutes: "HourFromTime l = ((l div 60000) div 60) mod 24"
  using zdiv_zmult2_eq [of 60 l 60000] by (simp add: HourFromTime_def msPerHour_def)

lemma local_normalized:
  "MakeDate (Day l) (MakeTime (HourFromTime l) (Math_round (of_int (MinFromTime l) / 5) * 5) 0 0)
     = 300000 * ((l + 120000) div 300000)"
proof -
  define q where "q = l div 60000"
  have "MakeDate (Day l) (MakeTime (HourFromTime l) (Math_round (of_int (MinFromTime l) / 5) * 5) 0 0)
          = 60000 * ((q div 1440) * 1440 + ((q div 60) mod 24) * 60 + ((q mod 60 + 2) div 5) * 5)"
    unfolding MakeDate_def MakeTime_def Day_minutes HourFromTime_minutes MinFromTime_def
      Math_round_fifth msPerDay_def msPerHour_def msPerMinute_def q_def[symmetric]
    by (simp add: distrib_left)
  also have "\<dots> = 60000 * (((q + 2) div 5) * 5)"
    by (simp only: minutes_arith)
  also have "\<dots> = 300000 * ((l + 120000) div 300000)"
    by (simp add: window_arith q_def)
  finally show ?thesis .
qed

lemma normalizedTime_eq:
  "normalizedTime z t =
     TimeClip (UTC z (300000 * ((LocalTime z t + 120000) div 300000)))"
  by (simp add: normalizedTime_def setMinutes_def getMinutes_def Let_def local_normalized)

lemma window_floor:
  fixes b l :: int
  assumes "b mod 300000 = 0" and "b - 120000 \<le> l" and "l < b + 180000"
  shows "300000 * ((l + 120000) div 300000) = b"
proof -
  obtain k where k: "b = 300000 * k"
    using assms(1) by (auto simp: mod_eq_0_iff_dvd)
  have "(l + 120000) div 300000 = k"
  proof (rule int_div_pos_eq)
    show "l + 120000 = 300000 * k + (l + 120000 - b)"
      by (simp add: k)
    show "0 \<le> l + 120000 - b"
      using assms(2) by simp
    show "l + 120000 - b < 300000"
      using assms(3) by simp
  qed
  then show ?thesis
    by (simp add: k)
qed

text \<open>The key of a timestamp whose zone offset is \<open>off\<close>, and is still \<open>off\<close> at the
  5-minute boundary of local time it is rounded to.\<close>

lemma normalizedTime_window:
  assumes "(b + off) mod 300000 = 0"
    and "\<bar>b\<bar> \<le> 8640000000000000"
    and "utc_offset z t = off"
    and "local_offset z (b + off) = off"
    and "b - 120000 \<le> t" and "t < b + 180000"
  shows "normalizedTime z t = Some b"
proof -
  have "300000 * ((t + off + 120000) div 300000) = b + off"
    using window_floor [of "b + off" "t + off"] assms(1,5,6) by simp
  then have "UTC z (300000 * ((LocalTime z t + 120000) div 300000)) = b"
    using assms(3,4) by (simp add: LocalTime_def UTC_def)
  then show ?thesis
    using assms(2) by (simp add: normalizedTime_eq TimeClip_def)
qed

text \<open>Where the offset changes between the timestamp and the boundary, the key is another
  one. In Paris on 26 October 2025 at 00:58 UTC it is 02:58 in summer time; the minutes round
  to 03:00 local time, which is winter time: 02:00 UTC, an hour and two minutes later.\<close>

lemma normalizedReset_offset_change:
  "normalizedReset iso_parse europe_paris ''2025-10-26T00:58:00.000Z''
     = Some ''2025-10-26T02:00:00.000Z''"
  by code_simp

text \<open>
  C4, as the code has it. The minutes field of the local time is rounded to the nearest multiple
  of five, and seconds and milliseconds are set to zero. Where the zone has the same offset
  from UTC at the timestamp and at the local time it is rounded to (no daylight-saving change
  in between), the key is the ISO string of a 5-minute boundary of local time: the boundary
  \<open>b\<close>, a valid date, for every timestamp from two minutes before \<open>b\<close> up to, but not including, three
  minutes after it. So two reset timestamps inside the same such interval around a boundary
  have the same key, the one of the boundary.
\<close>

theorem normalizedReset_window:
  assumes "(b + off) mod 300000 = 0"
    and "\<bar>b\<bar> \<le> 8640000000000000"
    and "local_offset z (b + off) = off"
    and "Date_new parse r1 = Some t1" and "utc_offset z t1 = off"
    and "b - 120000 \<le> t1" and "t1 < b + 180000"
    and "Date_new parse r2 = Some t2" and "utc_offset z t2 = off"
    and "b - 120000 \<le> t2" and "t2 < b + 180000"
  shows "normalizedReset parse z r1 = toISOString (Some b)
         \<and> normalizedReset parse z r2 = normalizedReset parse z r1"
proof -
  have "normalizedTime z t1 = Some b"
    using assms(1,2,5,3,6,7) by (rule normalizedTime_window)
  then have "normalizedReset parse z r1 = toISOString (Some b)"
    using assms(4) by (simp add: normalizedReset_def)
  moreover have "normalizedTime z t2 = Some b"
    using assms(1,2,9,3,10,11) by (rule normalizedTime_window)
  then have "normalizedReset parse z r2 = toISOString (Some b)"
    using assms(8) by (simp add: normalizedReset_def)
  ultimately show ?thesis
    by simp
qed

text \<open>In Paris, in winter time: a timestamp 188 ms before 15:00:00 UTC and one 310 ms after
  it both get the key of 15:00:00 UTC.\<close>

theorem normalizedReset_window_witness:
  "normalizedReset iso_parse europe_paris ''2025-11-02T14:59:59.812Z''
     = Some ''2025-11-02T15:00:00.000Z''
   \<and> normalizedReset iso_parse europe_paris ''2025-11-02T15:00:00.310Z''
     = Some ''2025-11-02T15:00:00.000Z''"
proof -
  have b: "(1762095600000 + 3600000) mod 300000 = (0 :: int)"
    by simp
  have r: "\<bar>1762095600000 :: int\<bar> \<le> 8640000000000000"
    by simp
  have l: "local_offset europe_paris (1762095600000 + 3600000) = 3600000"
    by (simp add: europe_paris_def)
  have p1: "Date_new iso_parse ''2025-11-02T14:59:59.812Z'' = Some 1762095599812"
    by code_simp
  have o1: "utc_offset europe_paris 1762095599812 = 3600000"
    by (simp add: europe_paris_def)
  have p2: "Date_new iso_parse ''2025-11-02T15:00:00.310Z'' = Some 1762095600310"
    by code_simp
  have o2: "utc_offset europe_paris 1762095600310 = 3600000"
    by (simp add: europe_paris_def)
  have k: "toISOString (Some 1762095600000) = Some ''2025-11-02T15:00:00.000Z''"
    by code_simp
  show ?thesis
    using normalizedReset_window [OF b r l p1 o1 _ _ p2 o2] k by simp
qed

text \<open>
  C4 as stated fails: two timestamps one millisecond apart, 15:02:59.999 and 15:03:00.000, get
  keys five minutes apart; and the key of the first, 15:00:00, is not the 5-minute boundary
  nearest to it.
\<close>

theorem normalizedReset_jitter_counterexample:
  "iso_parse ''2025-11-02T15:02:59.999Z'' = Some 1762095779999
   \<and> iso_parse ''2025-11-02T15:03:00.000Z'' = Some 1762095780000
   \<and> normalizedReset iso_parse (fixed_zone 0) ''2025-11-02T15:02:59.999Z''
       = Some ''2025-11-02T15:00:00.000Z''
   \<and> normalizedReset iso_parse (fixed_zone 0) ''2025-11-02T15:03:00.000Z''
       = Some ''2025-11-02T15:05:00.000Z''"
  by code_simp

section \<open>The spend ledger: theorems\<close>

lemma upsert_Nil:
  "upsert r [] = [r]"
  by (simp add: upsert_def)

lemma upsert_Cons:
  "upsert r (x # xs) = (if id_s x = id_s r then r # xs else x # upsert r xs)"
  by (simp add: upsert_def split: option.split)

lemma upsert_ids:
  "map id_s (upsert r xs) =
     (if id_s r \<in> set (map id_s xs) then map id_s xs else map id_s xs @ [id_s r])"
  by (induction xs) (auto simp: upsert_Nil upsert_Cons)

lemma upsert_distinct:
  "distinct (map id_s xs) \<Longrightarrow> distinct (map id_s (upsert r xs))"
  by (simp add: upsert_ids)

lemma upsert_length_present:
  "id_s r \<in> set (map id_s xs) \<Longrightarrow> length (upsert r xs) = length xs"
  using arg_cong [OF upsert_ids [of r xs], of length] by simp

lemma upsert_present:
  "id_s r \<in> set (map id_s (upsert r xs))"
  by (simp add: upsert_ids)

lemma filter_absent_id:
  "k \<notin> set (map id_s xs) \<Longrightarrow> filter (\<lambda>s. id_s s = k) xs = []"
  by (induction xs) auto

lemma upsert_filter:
  "distinct (map id_s xs) \<Longrightarrow> filter (\<lambda>s. id_s s = id_s r) (upsert r xs) = [r]"
proof (induction xs)
  case Nil
  show ?case by (simp add: upsert_Nil)
next
  case (Cons x xs)
  show ?case
  proof (cases "id_s x = id_s r")
    case True
    then have "id_s r \<notin> set (map id_s xs)"
      using Cons.prems by auto
    then show ?thesis
      using True by (simp add: upsert_Cons filter_absent_id)
  next
    case False
    then show ?thesis
      using Cons by (simp add: upsert_Cons)
  qed
qed

text \<open>A call that passes the guard upserts a record with the session's id and cost.\<close>

lemma saveSession_ledger:
  assumes "session_id input \<noteq> []" and "total_cost_usd input \<noteq> 0"
  shows "\<exists>r. id_s r = session_id input \<and> cost_s r = total_cost_usd input
             \<and> ledger (saveSession now st input) = upsert r (ledger st)"
proof -
  obtain isoString where iso: "toISOString (Some now) = Some isoString"
    by (simp add: toISOString_def)
  define r :: "'a SpendSession" where
    "r = \<lparr>id_s = session_id input, cost_s = total_cost_usd input, date = before_T isoString,
          duration_ms = total_duration_ms input, cwd = input_cwd input\<rparr>"
  have "ledger (saveSession now st input) = upsert r (ledger st)"
    using assms iso
    by (simp add: saveSession_def ledger_def upsert_def r_def loadSpendData_def Let_def
             split: option.split)
  moreover have "id_s r = session_id input" and "cost_s r = total_cost_usd input"
    by (simp_all add: r_def)
  ultimately show ?thesis
    by blast
qed

text \<open>
  C7, as the code has it. Two calls of \<open>saveSession\<close> for the same session, whose id is not
  empty and whose cost is not zero at either call, on a ledger that holds at most one record per
  id: afterwards the ledger holds exactly one record with that id, carrying the cost of the
  second call; the second call has not changed the number of records; and the ledger still holds
  at most one record per id. The empty id is excluded: the guard at the head of
  \<open>saveSession\<close> returns before the ledger is read.
\<close>

theorem saveSession_twice_one_record:
  assumes "session_id i1 \<noteq> []"
    and "session_id i2 = session_id i1"
    and "total_cost_usd i1 \<noteq> 0"
    and "total_cost_usd i2 \<noteq> 0"
    and "distinct (map id_s (ledger st))"
  shows "map cost_s (filter (\<lambda>s. id_s s = session_id i1)
                       (ledger (saveSession now2 (saveSession now1 st i1) i2)))
           = [total_cost_usd i2]
         \<and> length (ledger (saveSession now2 (saveSession now1 st i1) i2))
             = length (ledger (saveSession now1 st i1))
         \<and> distinct (map id_s (ledger (saveSession now2 (saveSession now1 st i1) i2)))"
proof -
  obtain r1 where r1: "id_s r1 = session_id i1"
      "ledger (saveSession now1 st i1) = upsert r1 (ledger st)"
    using saveSession_ledger [OF assms(1,3)] by blast
  have ne2: "session_id i2 \<noteq> []"
    using assms(1,2) by simp
  obtain r2 where r2: "id_s r2 = session_id i1" "cost_s r2 = total_cost_usd i2"
      "ledger (saveSession now2 (saveSession now1 st i1) i2)
         = upsert r2 (ledger (saveSession now1 st i1))"
    using saveSession_ledger [OF ne2 assms(4)] assms(2) by metis
  have d1: "distinct (map id_s (ledger (saveSession now1 st i1)))"
    using assms(5) by (simp add: r1(2) upsert_distinct)
  have present: "id_s r2 \<in> set (map id_s (ledger (saveSession now1 st i1)))"
    using upsert_present [of r1 "ledger st"] by (simp add: r1 r2(1))
  have "filter (\<lambda>s. id_s s = session_id i1)
          (ledger (saveSession now2 (saveSession now1 st i1) i2)) = [r2]"
    using upsert_filter [OF d1, of r2] by (simp add: r2)
  moreover have "length (ledger (saveSession now2 (saveSession now1 st i1) i2))
                   = length (ledger (saveSession now1 st i1))"
    using upsert_length_present [OF present] by (simp add: r2(3))
  moreover have "distinct (map id_s (ledger (saveSession now2 (saveSession now1 st i1) i2)))"
    using d1 by (simp add: r2(3) upsert_distinct)
  ultimately show ?thesis
    by (simp add: r2(2))
qed

text \<open>Session \<open>s1\<close>, already in the ledger at 3 dollars, is saved at 4 dollars and then at
  9/2 dollars: one record with that id, two records in all.\<close>

theorem saveSession_twice_one_record_witness:
  "map cost_s (filter (\<lambda>s. id_s s = ''s1'')
       (ledger (saveSession 1762095700000
                  (saveSession 1762095600000 spend_example (hook_example ''s1'' 4))
                  (hook_example ''s1'' (9 / 2))))) = [9 / 2]
   \<and> length (ledger (saveSession 1762095700000
                  (saveSession 1762095600000 spend_example (hook_example ''s1'' 4))
                  (hook_example ''s1'' (9 / 2)))) = 2"
proof -
  have h1: "session_id (hook_example ''s1'' 4) \<noteq> []"
    by (simp add: hook_example_def)
  have h2: "session_id (hook_example ''s1'' (9 / 2)) = session_id (hook_example ''s1'' 4)"
    by (simp add: hook_example_def)
  have h3: "total_cost_usd (hook_example ''s1'' 4) \<noteq> 0"
    by (simp add: hook_example_def)
  have h4: "total_cost_usd (hook_example ''s1'' (9 / 2)) \<noteq> 0"
    by (simp add: hook_example_def)
  have h5: "distinct (map id_s (ledger spend_example))"
    by (simp add: ledger_def loadSpendData_def spend_example_def)
  have len: "length (ledger (saveSession 1762095600000 spend_example (hook_example ''s1'' 4))) = 2"
    by code_simp
  show ?thesis
    using saveSession_twice_one_record [OF h1 h2 h3 h4 h5, of 1762095700000 1762095600000] len
    by (simp add: hook_example_def)
qed

text \<open>
  C7 as stated fails: a session record with a cost of 1 and the empty string as its id, saved
  twice into the empty ledger, leaves no record with that id.
\<close>

theorem saveSession_empty_id_counterexample:
  "0 < total_cost_usd (hook_example [] 1)
   \<and> length (filter (\<lambda>s. id_s s = [])
        (ledger (saveSession 1762095700000
                   (saveSession 1762095600000 empty_store (hook_example [] 1))
                   (hook_example [] 1)))) = 0"
  by code_simp

text \<open>
  C10. An input whose session id is empty, or whose cost is zero, leaves the store as it was:
  the spend file is the same and no write is logged.
\<close>

theorem saveSession_guard_noop:
  assumes "session_id input = [] \<or> total_cost_usd input = 0"
  shows "saveSession now st input = st"
  using assms by (auto simp: saveSession_def)

theorem saveSession_guard_noop_witness:
  "saveSession 1762095600000 spend_example (hook_example [] 4) = spend_example
   \<and> saveSession 1762095600000 spend_example (hook_example ''s9'' 0) = spend_example"
proof -
  have a: "session_id (hook_example [] 4) = [] \<or> total_cost_usd (hook_example [] 4) = 0"
    by (simp add: hook_example_def)
  have b: "session_id (hook_example ''s9'' 0) = [] \<or> total_cost_usd (hook_example ''s9'' 0) = 0"
    by (simp add: hook_example_def)
  show ?thesis
    using saveSession_guard_noop [OF a, of 1762095600000 spend_example]
          saveSession_guard_noop [OF b, of 1762095600000 spend_example]
    by simp
qed

section \<open>The context scanner: theorems\<close>

lemma scan_lines_usable:
  "scan_lines parse ls tokens latest = scan_usable parse (valid_records ls) tokens latest"
proof (induction ls arbitrary: tokens latest)
  case Nil
  show ?case by simp
next
  case (Cons l ls)
  show ?case
  proof (cases l)
    case None
    then show ?thesis
      by (simp add: Cons.IH)
  next
    case (Some data)
    show ?thesis
    proof (cases "usable data")
      case False
      then have "scan_lines parse (Some data # ls) tokens latest = scan_lines parse ls tokens latest"
        by (auto simp: usable_def split: option.splits)
      then show ?thesis
        using False Some by (simp add: Cons.IH)
    next
      case True
      then obtain u ts where u: "message_usage data = Some u" and ts: "timestamp data = Some ts"
        and flags: "\<not> isSidechain data" "\<not> isApiErrorMessage data" "ts \<noteq> []"
        by (auto simp: usable_def)
      have t: "Date_new parse ts = entry_time parse data"
        by (simp add: entry_time_def ts)
      have k: "usage_tokens u = entry_tokens data"
        by (simp add: entry_tokens_def u)
      show ?thesis
        using True Some u ts flags
        by (cases latest) (simp_all add: t k Let_def Cons.IH)
    qed
  qed
qed

lemma time_le_Some [simp]: "time_le (Some x) (Some y) = (x \<le> y)"
  by (simp add: time_le_def)

lemma date_gt_Some [simp]: "date_gt (Some x) (Some y) = (x > y)"
  by (simp add: date_gt_def)

lemma latest_exists:
  assumes "\<forall>e \<in> set es. \<exists>t. entry_time parse e = Some t" and "es \<noteq> []"
  shows "\<exists>m \<in> set es. list_all (\<lambda>e'. time_le (entry_time parse e') (entry_time parse m)) es"
  using assms
proof (induction es)
  case Nil
  then show ?case by simp
next
  case (Cons e es)
  obtain te where te: "entry_time parse e = Some te"
    using Cons.prems by auto
  show ?case
  proof (cases "es = []")
    case True
    then show ?thesis by (simp add: te)
  next
    case False
    then obtain m where m: "m \<in> set es"
        "list_all (\<lambda>e'. time_le (entry_time parse e') (entry_time parse m)) es"
      using Cons by auto
    obtain tm where tm: "entry_time parse m = Some tm"
      using Cons.prems m(1) by auto
    show ?thesis
    proof (cases "te \<le> tm")
      case True
      then have "list_all (\<lambda>e'. time_le (entry_time parse e') (entry_time parse m)) (e # es)"
        using m(2) by (simp add: te tm)
      then show ?thesis
        using m(1) by (intro bexI [of _ m]) simp_all
    next
      case False
      have "list_all (\<lambda>e'. time_le (entry_time parse e') (Some te)) es"
        unfolding list_all_iff
      proof
        fix x assume x: "x \<in> set es"
        then obtain tx where tx: "entry_time parse x = Some tx"
          using Cons.prems by auto
        have "tx \<le> tm"
          using m(2) x by (auto simp: list_all_iff tx tm)
        then show "time_le (entry_time parse x) (Some te)"
          using False by (simp add: tx)
      qed
      then show ?thesis
        by (simp add: te)
    qed
  qed
qed

lemma scan_usable_find:
  assumes "\<forall>e \<in> set es. \<exists>t. entry_time parse e = Some t"
  shows "scan_usable parse es tokens (Some (Some t0)) =
           (case find (\<lambda>e. date_gt (entry_time parse e) (Some t0)
                          \<and> list_all (\<lambda>e'. time_le (entry_time parse e') (entry_time parse e)) es) es of
              None \<Rightarrow> tokens
            | Some e \<Rightarrow> entry_tokens e)"
  using assms
proof (induction es arbitrary: tokens t0)
  case Nil
  show ?case by simp
next
  case (Cons e es)
  obtain te where te: "entry_time parse e = Some te"
    using Cons.prems by auto
  have times: "\<forall>x \<in> set es. \<exists>t. entry_time parse x = Some t"
    using Cons.prems by simp
  let ?top = "\<lambda>zs x. list_all (\<lambda>e'. time_le (entry_time parse e') (entry_time parse x)) zs"
  show ?case
  proof (cases "te > t0")
    case True
    have step: "scan_usable parse (e # es) tokens (Some (Some t0))
                  = scan_usable parse es (entry_tokens e) (Some (Some te))"
      using True by (simp add: te)
    show ?thesis
    proof (cases "?top es e")
      case all: True
      have "find (\<lambda>x. date_gt (entry_time parse x) (Some te) \<and> ?top es x) es = None"
        using all times by (fastforce simp: find_None_iff list_all_iff te)
      then show ?thesis
        using True all by (simp add: step Cons.IH [OF times] te)
    next
      case notall: False
      have "find (\<lambda>x. date_gt (entry_time parse x) (Some t0) \<and> ?top (e # es) x) es
              = find (\<lambda>x. date_gt (entry_time parse x) (Some te) \<and> ?top es x) es"
      proof (rule find_cong [OF refl])
        fix x assume x: "x \<in> set es"
        then obtain tx where tx: "entry_time parse x = Some tx"
          using times by auto
        obtain y ty where y: "y \<in> set es" "entry_time parse y = Some ty" "ty > te"
          using notall times by (fastforce simp: list_all_iff te)
        show "(date_gt (entry_time parse x) (Some t0) \<and> ?top (e # es) x)
                = (date_gt (entry_time parse x) (Some te) \<and> ?top es x)"
          using True y by (fastforce simp: tx te list_all_iff)
      qed
      moreover have "find (\<lambda>x. date_gt (entry_time parse x) (Some te) \<and> ?top es x) es \<noteq> None"
      proof -
        obtain y ty where y: "y \<in> set es" "entry_time parse y = Some ty" "ty > te"
          using notall times by (fastforce simp: list_all_iff te)
        then have "es \<noteq> []"
          by auto
        then obtain m where m: "m \<in> set es" "?top es m"
          using latest_exists [OF times] by blast
        obtain tm where tm: "entry_time parse m = Some tm"
          using times m(1) by auto
        have "ty \<le> tm"
          using m(2) y(1,2) by (auto simp: list_all_iff tm)
        then have "date_gt (entry_time parse m) (Some te)"
          using y(3) by (simp add: tm)
        then show ?thesis
          using m by (auto simp: find_None_iff)
      qed
      ultimately show ?thesis
        using True notall by (auto simp add: step Cons.IH [OF times] te)
    qed
  next
    case False
    have step: "scan_usable parse (e # es) tokens (Some (Some t0))
                  = scan_usable parse es tokens (Some (Some t0))"
      using False by (simp add: te)
    have "find (\<lambda>x. date_gt (entry_time parse x) (Some t0) \<and> ?top (e # es) x) es
            = find (\<lambda>x. date_gt (entry_time parse x) (Some t0) \<and> ?top es x) es"
    proof (rule find_cong [OF refl])
      fix x assume x: "x \<in> set es"
      then obtain tx where tx: "entry_time parse x = Some tx"
        using times by auto
      show "(date_gt (entry_time parse x) (Some t0) \<and> ?top (e # es) x)
              = (date_gt (entry_time parse x) (Some t0) \<and> ?top es x)"
        using False by (auto simp: tx te)
    qed
    then show ?thesis
      using False by (simp add: step Cons.IH [OF times] te)
  qed
qed

lemma scan_usable_latest:
  assumes "\<forall>e \<in> set es. \<exists>t. entry_time parse e = Some t"
  shows "scan_usable parse es 0 None =
           (case latest_record parse es of None \<Rightarrow> 0 | Some e \<Rightarrow> entry_tokens e)"
proof (cases es)
  case Nil
  then show ?thesis by (simp add: latest_record_def)
next
  case (Cons e rest)
  obtain te where te: "entry_time parse e = Some te"
    using assms Cons by auto
  have "scan_usable parse es 0 None = scan_usable parse es 0 (Some (Some (te - 1)))"
    by (simp add: Cons te)
  also have "\<dots> = (case find (\<lambda>x. date_gt (entry_time parse x) (Some (te - 1))
                          \<and> list_all (\<lambda>e'. time_le (entry_time parse e') (entry_time parse x)) es) es of
              None \<Rightarrow> 0
            | Some x \<Rightarrow> entry_tokens x)"
    by (rule scan_usable_find [OF assms])
  also have "find (\<lambda>x. date_gt (entry_time parse x) (Some (te - 1))
                          \<and> list_all (\<lambda>e'. time_le (entry_time parse e') (entry_time parse x)) es) es
               = latest_record parse es"
    unfolding latest_record_def
  proof (rule find_cong [OF refl])
    fix x assume "x \<in> set es"
    then obtain tx where tx: "entry_time parse x = Some tx"
      using assms by auto
    show "(date_gt (entry_time parse x) (Some (te - 1))
             \<and> list_all (\<lambda>e'. time_le (entry_time parse e') (entry_time parse x)) es)
          = list_all (\<lambda>e'. time_le (entry_time parse e') (entry_time parse x)) es"
      by (auto simp: tx te Cons)
  qed
  finally show ?thesis .
qed

lemma date_gt_None [simp]: "date_gt None l = False"
  by (simp add: date_gt_def)

lemma scan_usable_skip_undated:
  "scan_usable parse es tokens (Some (Some t0))
     = scan_usable parse (filter (\<lambda>e. entry_time parse e \<noteq> None) es) tokens (Some (Some t0))"
proof (induction es arbitrary: tokens t0)
  case Nil
  show ?case by simp
next
  case (Cons e es)
  show ?case
  proof (cases "entry_time parse e")
    case None
    then show ?thesis
      by (simp add: Cons.IH)
  next
    case (Some te)
    then show ?thesis
      using Cons.IH [of "entry_tokens e" te] Cons.IH [of tokens t0] by simp
  qed
qed

lemma scan_usable_first_dated:
  assumes "first_dated parse es"
  shows "scan_usable parse es 0 None
           = scan_usable parse (filter (\<lambda>e. entry_time parse e \<noteq> None) es) 0 None"
proof (cases es)
  case Nil
  then show ?thesis by simp
next
  case (Cons e rest)
  then obtain te where te: "entry_time parse e = Some te"
    using assms by (auto simp: first_dated_def)
  show ?thesis
    using scan_usable_skip_undated [of parse rest "entry_tokens e" te]
    by (simp add: Cons te)
qed

lemma scan_lines_latest_dated:
  assumes "first_dated parse (valid_records ls)"
  shows "scan_lines parse ls 0 None =
           (case latest_record parse (dated_records parse ls) of
              None \<Rightarrow> 0
            | Some e \<Rightarrow> entry_tokens e)"
proof -
  have "\<forall>e \<in> set (dated_records parse ls). \<exists>t. entry_time parse e = Some t"
    by (auto simp: dated_records_def)
  then show ?thesis
    using scan_usable_first_dated [OF assms]
    by (simp add: scan_lines_usable scan_usable_latest dated_records_def)
qed

text \<open>
  C8, as the code has it. With no path, or no file at the path, the scanner returns 0. For a
  transcript whose first counting record is dated, it returns the sum of the input, cache-read
  and cache-creation tokens of the latest dated record: of a counting record with a time that
  no counting record exceeds (the first such), counting records that are not dated being passed
  over; and 0 when no record counts. Lines that do not parse and records that do not count have
  no part in the result: it is a function of \<open>valid_records\<close> alone. What the scanner
  returns when the first counting record is not dated is left open here.
\<close>

theorem getContextTokens_latest:
  "((transcriptPath = [] \<or> fs transcriptPath = None)
       \<longrightarrow> getContextTokens parse fs transcriptPath = 0)
   \<and> (\<forall>lines. transcriptPath \<noteq> [] \<and> fs transcriptPath = Some lines
         \<and> first_dated parse (valid_records lines)
       \<longrightarrow> getContextTokens parse fs transcriptPath
             = (case latest_record parse (dated_records parse lines) of
                  None \<Rightarrow> 0
                | Some e \<Rightarrow> entry_tokens e)
           \<and> (valid_records lines = [] \<longrightarrow> getContextTokens parse fs transcriptPath = 0)
           \<and> (valid_records lines \<noteq> [] \<longrightarrow>
                (\<exists>e \<in> set (valid_records lines).
                    getContextTokens parse fs transcriptPath = entry_tokens e
                    \<and> entry_time parse e \<noteq> None
                    \<and> (\<forall>e' \<in> set (valid_records lines).
                          entry_time parse e' = None
                          \<or> time_le (entry_time parse e') (entry_time parse e)))))"
proof (intro conjI allI impI)
  assume "transcriptPath = [] \<or> fs transcriptPath = None"
  then show "getContextTokens parse fs transcriptPath = 0"
    by (auto simp: getContextTokens_def)
next
  fix lines
  assume a: "transcriptPath \<noteq> [] \<and> fs transcriptPath = Some lines
               \<and> first_dated parse (valid_records lines)"
  then have fd: "first_dated parse (valid_records lines)"
    by simp
  have times: "\<forall>e \<in> set (dated_records parse lines). \<exists>t. entry_time parse e = Some t"
    by (auto simp: dated_records_def)
  have "getContextTokens parse fs transcriptPath = scan_lines parse lines 0 None"
    using a by (simp add: getContextTokens_def)
  then have res: "getContextTokens parse fs transcriptPath
                    = (case latest_record parse (dated_records parse lines) of
                         None \<Rightarrow> 0
                       | Some e \<Rightarrow> entry_tokens e)"
    by (simp add: scan_lines_latest_dated [OF fd])
  show "getContextTokens parse fs transcriptPath
          = (case latest_record parse (dated_records parse lines) of
               None \<Rightarrow> 0
             | Some e \<Rightarrow> entry_tokens e)"
    by (rule res)
  {
    assume "valid_records lines = []"
    then show "getContextTokens parse fs transcriptPath = 0"
      by (simp add: res latest_record_def dated_records_def)
  }
  {
    assume "valid_records lines \<noteq> []"
    then obtain e0 rest where v: "valid_records lines = e0 # rest"
      by (cases "valid_records lines") auto
    then have "entry_time parse e0 \<noteq> None"
      using fd by (simp add: first_dated_def)
    then have "dated_records parse lines \<noteq> []"
      using v by (auto simp: dated_records_def)
    then obtain m where "m \<in> set (dated_records parse lines)"
        "list_all (\<lambda>e'. time_le (entry_time parse e') (entry_time parse m))
           (dated_records parse lines)"
      using latest_exists [OF times] by blast
    then have "latest_record parse (dated_records parse lines) \<noteq> None"
      by (auto simp: latest_record_def find_None_iff)
    then obtain e where e: "latest_record parse (dated_records parse lines) = Some e"
      by auto
    then have mem: "e \<in> set (dated_records parse lines)"
      and top: "list_all (\<lambda>e'. time_le (entry_time parse e') (entry_time parse e))
                  (dated_records parse lines)"
      by (auto simp: latest_record_def find_Some_iff)
    have "e \<in> set (valid_records lines)" and "entry_time parse e \<noteq> None"
      using mem by (auto simp: dated_records_def)
    moreover have "\<forall>e' \<in> set (valid_records lines).
                     entry_time parse e' = None
                     \<or> time_le (entry_time parse e') (entry_time parse e)"
      using top by (auto simp: dated_records_def list_all_iff)
    ultimately show "\<exists>e \<in> set (valid_records lines).
                 getContextTokens parse fs transcriptPath = entry_tokens e
                 \<and> entry_time parse e \<noteq> None
                 \<and> (\<forall>e' \<in> set (valid_records lines).
                       entry_time parse e' = None
                       \<or> time_le (entry_time parse e') (entry_time parse e))"
      using e res by auto
  }
qed

text \<open>On the transcript of six lines, the record of 10:05 is the latest dated record:
  200 + 40 + 5 tokens; the record whose timestamp is not a date is passed over. A path with no
  file gives 0.\<close>

theorem getContextTokens_latest_witness:
  "getContextTokens iso_parse transcript_fs ''C:/t/session.jsonl'' = 245
   \<and> getContextTokens iso_parse transcript_fs ''C:/t/other.jsonl'' = 0"
proof -
  have p: "''C:/t/session.jsonl'' \<noteq> []"
    by simp
  have f: "transcript_fs ''C:/t/session.jsonl'' = Some transcript_example"
    by (simp add: transcript_fs_def)
  have t: "first_dated iso_parse (valid_records transcript_example)"
    by code_simp
  have l: "(case latest_record iso_parse (dated_records iso_parse transcript_example) of
              None \<Rightarrow> 0
            | Some e \<Rightarrow> entry_tokens e) = 245"
    by code_simp
  have n: "''C:/t/other.jsonl'' = [] \<or> transcript_fs ''C:/t/other.jsonl'' = None"
    by (simp add: transcript_fs_def)
  have w1: "getContextTokens iso_parse transcript_fs ''C:/t/session.jsonl'' = 245"
    using getContextTokens_latest [of "''C:/t/session.jsonl''" transcript_fs iso_parse] p f t l
    by (elim conjE) simp
  have w2: "getContextTokens iso_parse transcript_fs ''C:/t/other.jsonl'' = 0"
    using getContextTokens_latest [of "''C:/t/other.jsonl''" transcript_fs iso_parse] n
    by (elim conjE) simp
  show ?thesis
    using w1 w2 by simp
qed

text \<open>
  C8 as stated fails: when the first counting record of the transcript has a timestamp that is
  not a date, the scanner keeps it as the latest (no time compares greater than an invalid
  date) and returns its 7 tokens, where the record with the latest timestamp, that of 10:05,
  has 245.
\<close>

theorem getContextTokens_locked_counterexample:
  "locked_fs ''C:/t/session.jsonl'' = Some locked_example
   \<and> first_dated iso_parse (valid_records locked_example) = False
   \<and> (case latest_record iso_parse (dated_records iso_parse locked_example) of
         None \<Rightarrow> 0
       | Some e \<Rightarrow> entry_tokens e) = 245
   \<and> getContextTokens iso_parse locked_fs ''C:/t/session.jsonl'' = 7"
  by code_simp

section \<open>The month report: theorems\<close>

text \<open>The grand total is the per-day subtotals added up in printing order, whatever the
  addition: the loop adds each day's cost to it as the row is printed.\<close>

lemma report_rows_grandTotal:
  "report_rows byDate ds tot = (rows, final) \<Longrightarrow>
     grandTotal final = foldl (\<lambda>acc r. acc + dayCost r) (grandTotal tot) rows"
proof (induction ds arbitrary: tot rows)
  case Nil
  then show ?case by simp
next
  case (Cons d ds)
  then show ?case
    by (auto simp: Let_def split: prod.splits)
qed

lemma month_main_grandTotal:
  "month_main z now spend = Inr (Report rows tot) \<Longrightarrow>
     grandTotal tot = foldl (\<lambda>acc r. acc + dayCost r) 0 rows"
  by (auto simp: month_main_def Let_def
           split: json_file.splits option.splits if_splits prod.splits
           dest: report_rows_grandTotal)

text \<open>The rows are printed newest first: no row's date is below the date of a row after
  it.\<close>

lemma str_lt_irrefl: "\<not> str_lt a a"
  by (induction a) auto

lemma str_lt_trans: "str_lt a b \<Longrightarrow> str_lt b c \<Longrightarrow> str_lt a c"
proof (induction a b arbitrary: c rule: str_lt.induct)
  case 1
  then show ?case by simp
next
  case (2 y ys)
  then show ?case by (cases c) auto
next
  case (3 x xs)
  then show ?case by simp
next
  case (4 x xs y ys)
  then show ?case by (cases c) auto
qed

lemma str_lt_asym: "str_lt a b \<Longrightarrow> \<not> str_lt b a"
  using str_lt_trans [of a b a] str_lt_irrefl [of a] by blast

lemma set_insert_cmp: "set (insert_cmp cmp x ys) = insert x (set ys)"
  by (induction ys) auto

lemma sorted_insert_cmp:
  assumes "sorted_wrt (\<lambda>a b. \<not> str_lt a b) ys"
  shows "sorted_wrt (\<lambda>a b. \<not> str_lt a b) (insert_cmp (\<lambda>a b. localeCompare b a) x ys)"
  using assms
proof (induction ys)
  case Nil
  show ?case by simp
next
  case (Cons y ys)
  show ?case
  proof (cases "str_lt y x")
    case True
    have "\<not> str_lt x z" if "z \<in> set ys" for z
    proof
      assume "str_lt x z"
      then have "str_lt y z"
        using True str_lt_trans by blast
      then show False
        using Cons.prems that by auto
    qed
    then show ?thesis
      using True Cons.prems str_lt_asym [OF True] by (auto simp: localeCompare_def)
  next
    case False
    then show ?thesis
      using Cons by (auto simp: localeCompare_def set_insert_cmp)
  qed
qed

lemma sorted_foldl_insert:
  "sorted_wrt (\<lambda>a b. \<not> str_lt a b) acc \<Longrightarrow>
     sorted_wrt (\<lambda>a b. \<not> str_lt a b)
       (foldl (\<lambda>acc x. insert_cmp (\<lambda>a b. localeCompare b a) x acc) acc xs)"
  by (induction xs arbitrary: acc) (simp_all add: sorted_insert_cmp)

lemma sorted_sort_cmp:
  "sorted_wrt (\<lambda>a b. \<not> str_lt a b) (sort_cmp (\<lambda>a b. localeCompare b a) xs)"
  by (simp add: sort_cmp_def sorted_foldl_insert)

lemma report_rows_dates:
  "report_rows byDate ds tot = (rows, final) \<Longrightarrow> map row_date rows = ds"
proof (induction ds arbitrary: tot rows)
  case Nil
  then show ?case by simp
next
  case (Cons d ds)
  then show ?case
    by (auto simp: Let_def split: prod.splits)
qed

lemma month_main_newest_first:
  "month_main z now spend = Inr (Report rows tot) \<Longrightarrow>
     sorted_wrt (\<lambda>a b. \<not> str_lt a b) (map row_date rows)"
  using sorted_sort_cmp
  by (auto simp: month_main_def Let_def
           split: json_file.splits option.splits if_splits prod.splits
           dest!: report_rows_dates)

text \<open>The days printed are the dates of the sessions dated at or after the month start, as
  strings; so what the report counts as this month is decided by \<open>monthStart\<close>.\<close>

lemma set_foldl_insert:
  "set (foldl (\<lambda>acc x. insert_cmp cmp x acc) acc xs) = set acc \<union> set xs"
  by (induction xs arbitrary: acc) (auto simp: set_insert_cmp)

lemma set_sort_cmp: "set (sort_cmp cmp xs) = set xs"
  by (simp add: sort_cmp_def set_foldl_insert)

lemma keys_map_set: "fst ` set (map_set m k v) = insert k (fst ` set m)"
proof (induction m)
  case Nil
  show ?case by simp
next
  case (Cons p m)
  obtain a b where p: "p = (a, b)"
    by (cases p)
  show ?case
    using Cons.IH by (cases "a = k") (auto simp: p)
qed

lemma keys_group_by_date:
  "fst ` set (group_by_date byDate xs) = fst ` set byDate \<union> date ` set xs"
proof (induction xs arbitrary: byDate)
  case Nil
  show ?case by simp
next
  case (Cons s xs)
  have "fst ` set (group_by_date byDate (s # xs))
          = insert (date s) (fst ` set byDate) \<union> date ` set xs"
    by (simp add: Let_def Cons.IH keys_map_set)
  then show ?case
    by simp
qed

lemma month_main_days:
  assumes "month_main z now (Content data) = Inr (Report rows tot)"
    and "monthStart z now = Some start"
  shows "set (map row_date rows) = date ` {s \<in> set (sessions data). str_ge (date s) start}"
proof -
  define ms where "ms = filter (\<lambda>s. str_ge (date s) start) (sessions data)"
  obtain final where "report_rows (group_by_date [] ms)
        (sort_cmp (\<lambda>a b. localeCompare b a) (map fst (group_by_date [] ms)))
        \<lparr>grandTotal = 0, grandDuration = 0, grandSessions = 0\<rparr> = (rows, final)"
    using assms
    by (auto simp: month_main_def Let_def ms_def split: if_splits prod.splits)
  then have "map row_date rows
               = sort_cmp (\<lambda>a b. localeCompare b a) (map fst (group_by_date [] ms))"
    by (rule report_rows_dates)
  then have "set (map row_date rows) = date ` set ms"
    by (simp add: set_sort_cmp keys_group_by_date)
  then show ?thesis
    by (simp add: ms_def)
qed

text \<open>
  C9, on the code. The report runs on 15 November 2025 at 12:00 UTC on a machine in Paris, one
  hour ahead of UTC. Local midnight of 1 November is 23:00 UTC of 31 October, so the month
  starts at the string \<open>2025-10-31\<close>, and the session dated 31 October is printed as a day
  of November and counted in the grand total: 3 instead of 2. On a machine in UTC the same
  ledger gives the November session alone.
\<close>

theorem month_main_includes_previous_month:
  "getFullYear europe_paris 1763208000000 = 2025
   \<and> getMonth europe_paris 1763208000000 = 10
   \<and> monthStart europe_paris 1763208000000 = Some ''2025-10-31''
   \<and> month_main europe_paris 1763208000000 (Content two_months) =
       Inr (Report
         [\<lparr>row_date = ''2025-11-03'', dayCost = 2, dayDuration = 120000, day_sessions = 1\<rparr>,
          \<lparr>row_date = ''2025-10-31'', dayCost = 1, dayDuration = 60000, day_sessions = 1\<rparr>]
         \<lparr>grandTotal = 3, grandDuration = 180000, grandSessions = 2\<rparr>)
   \<and> month_main (fixed_zone 0) 1763208000000 (Content two_months) =
       Inr (Report
         [\<lparr>row_date = ''2025-11-03'', dayCost = 2, dayDuration = 120000, day_sessions = 1\<rparr>]
         \<lparr>grandTotal = 2, grandDuration = 120000, grandSessions = 1\<rparr>)"
  by code_simp

end
